theory Spec2Isabelle
  imports Complex_Main
begin

section \<open>Data model\<close>

text \<open>
  The expense-approval workflow of the repository, embedded from \<^verbatim>\<open>src/js/app.js\<close>
  (the current engine) and \<^verbatim>\<open>src/unnamed/part_000\<close> (an earlier engine sharing the
  same data shape; its functions carry the suffix \<open>_p0\<close>).

  Strings of the program are HOL strings; the falsy string \<^verbatim>\<open>''\<close> (and an absent
  \<^verbatim>\<open>managerId\<close>) is the empty list. The browser store (localStorage) is a record
  passed through every operation; \<^verbatim>\<open>nowIso()\<close> is a parameter \<open>now\<close>.
  Fields of the program that no function below reads (amount, currency, receipt,
  email, password hash) are left out.
\<close>

datatype verdict = APPROVE | REJECT

record decision =
  d_userId :: string
  d_decision :: verdict
  d_comment :: string
  d_at :: string

record step =
  s_role :: string
  s_approvals :: "decision list"

record approvalState =
  stepIndex :: nat
  steps :: "step list"

record histEntry =
  h_at :: string
  h_status :: string
  h_by :: string

record expense =
  e_id :: string
  e_userId :: string
  status :: string
  approvals :: approvalState
  history :: "histEntry list"

record user =
  u_id :: string
  u_name :: string
  u_roles :: "string list"
  u_managerId :: string

record rules =
  r_steps :: "string list"
  percentage_enabled :: bool
  percentage_threshold :: int
  specific_enabled :: bool
  specific_role :: string
  hybrid_enabled :: bool

record store =
  users :: "user list"
  rulesOf :: rules
  customRoles :: "string list"
  expenses :: "expense list"

datatype error = NotFound | NotPending | NoActiveStep

text \<open>
  A JavaScript value that reaches a role parameter: a role name, or a step record of an
  expense. \<^verbatim>\<open>===\<close> and \<^verbatim>\<open>Array.prototype.includes\<close> never identify an object
  with a string, which is what distinctness of the two constructors says.
\<close>

datatype jsval = JStr string | JStep step

definition ROLE_EMPLOYEE :: string where "ROLE_EMPLOYEE = ''EMPLOYEE''"
definition ROLE_MANAGER :: string where "ROLE_MANAGER = ''MANAGER''"
definition ROLE_FINANCE :: string where "ROLE_FINANCE = ''FINANCE''"
definition ROLE_DIRECTOR :: string where "ROLE_DIRECTOR = ''DIRECTOR''"
definition ROLE_ADMIN :: string where "ROLE_ADMIN = ''ADMIN''"
definition ROLE_CFO :: string where "ROLE_CFO = ''CFO''"

definition BASE_ROLES :: "string list" where
  "BASE_ROLES = [ROLE_EMPLOYEE, ROLE_MANAGER, ROLE_FINANCE, ROLE_DIRECTOR, ROLE_ADMIN, ROLE_CFO]"

definition DEFAULT_RULES :: rules where
  "DEFAULT_RULES = \<lparr> r_steps = [ROLE_MANAGER, ROLE_FINANCE, ROLE_DIRECTOR],
     percentage_enabled = True, percentage_threshold = 50,
     specific_enabled = True, specific_role = ROLE_CFO, hybrid_enabled = True \<rparr>"

section \<open>The current engine (src/js/app.js)\<close>

text \<open>\<^verbatim>\<open>Array.from(new Set(xs))\<close>: first occurrences, in order.\<close>

definition uniq :: "'a list \<Rightarrow> 'a list" where
  "uniq xs = rev (remdups (rev xs))"

text \<open>\<^verbatim>\<open>hasRole(u, role)\<close> is \<^verbatim>\<open>roleList(u).includes(role)\<close>; the role list holds strings.\<close>

definition hasRole :: "user \<Rightarrow> jsval \<Rightarrow> bool" where
  "hasRole u role = (role \<in> set (map JStr (u_roles u)))"

text \<open>
  \<^verbatim>\<open>getCurrentStep\<close>: \<^verbatim>\<open>steps = expense?.approvals?.steps || getRules().steps || []\<close>.
  An expense always carries its own array of step records and an array is truthy, so
  the rule set is never consulted; \<^verbatim>\<open>role = steps[idx] || null\<close> is then the step
  record itself (an object, truthy), or null past the end.
\<close>

definition getCurrentStep :: "rules \<Rightarrow> expense \<Rightarrow> nat \<times> jsval option" where
  "getCurrentStep r e =
     (let sts = steps (approvals e); idx = stepIndex (approvals e)
      in (idx, if idx < length sts then Some (JStep (sts ! idx)) else None))"

definition eligibleApproverIds :: "user list \<Rightarrow> expense \<Rightarrow> jsval option \<Rightarrow> string list" where
  "eligibleApproverIds us e role =
     (case role of
        None \<Rightarrow> []
      | Some v \<Rightarrow>
          if v = JStr [] then []
          else if v = JStr ROLE_MANAGER then
            (case find (\<lambda>u. u_id u = e_userId e) us of
               None \<Rightarrow> []
             | Some emp \<Rightarrow> if u_managerId emp \<noteq> [] then [u_managerId emp] else [])
          else map u_id (filter (\<lambda>u. hasRole u v) us))"

definition isUserApproverFor :: "rules \<Rightarrow> user list \<Rightarrow> expense \<Rightarrow> user \<Rightarrow> bool" where
  "isUserApproverFor r us e u =
     (case snd (getCurrentStep r e) of
        None \<Rightarrow> False
      | Some role \<Rightarrow> u_id u \<in> set (eligibleApproverIds us e (Some role))
                     \<or> hasRole u (JStr ROLE_ADMIN))"

definition recordHistory :: "string \<Rightarrow> expense \<Rightarrow> string \<Rightarrow> string \<Rightarrow> expense" where
  "recordHistory now e st who =
     e\<lparr>history := history e @ [\<lparr>h_at = now, h_status = st, h_by = who\<rparr>]\<rparr>"

definition approverEntry :: "rules \<Rightarrow> expense \<Rightarrow> step option" where
  "approverEntry r e =
     (case getCurrentStep r e of
        (idx, None) \<Rightarrow> None
      | (idx, Some role) \<Rightarrow> Some (steps (approvals e) ! idx))"

text \<open>\<^verbatim>\<open>approvals[approvals.length - 1]?.userId || ''\<close>\<close>

definition lastBy :: "decision list \<Rightarrow> string" where
  "lastBy apprs = (if apprs = [] then [] else d_userId (last apprs))"

text \<open>
  The block that \<^verbatim>\<open>rulesEval\<close> runs, written out twice in the source, once for the
  auto-skip and once for a passed step.
\<close>

definition advanceStep :: "string \<Rightarrow> decision list \<Rightarrow> expense \<Rightarrow> expense" where
  "advanceStep now apprs e =
     (let next = stepIndex (approvals e) + 1
      in if next \<ge> length (steps (approvals e))
         then recordHistory now (e\<lparr>status := ''APPROVED''\<rparr>) ''APPROVED'' (lastBy apprs)
         else e\<lparr>approvals := (approvals e)\<lparr>stepIndex := next\<rparr>\<rparr>)"

definition approvedUserIds :: "decision list \<Rightarrow> string list" where
  "approvedUserIds apprs = uniq (map d_userId (filter (\<lambda>a. d_decision a = APPROVE) apprs))"

definition rulesEval :: "rules \<Rightarrow> user list \<Rightarrow> string \<Rightarrow> expense \<Rightarrow> expense" where
  "rulesEval r us now e =
     (case getCurrentStep r e of
        (idx, None) \<Rightarrow> e
      | (idx, Some role) \<Rightarrow>
          let apprs = s_approvals (steps (approvals e) ! idx)
          in if list_ex (\<lambda>a. d_decision a = REJECT) apprs
             then recordHistory now (e\<lparr>status := ''REJECTED''\<rparr>) ''REJECTED'' (lastBy apprs)
             else
               let eligible = eligibleApproverIds us e (Some role)
               in if length eligible = 0 then advanceStep now apprs e
                  else if list_all (\<lambda>i. i \<in> set (approvedUserIds apprs)) eligible
                       then advanceStep now apprs e
                       else e)"

text \<open>The in-place change of the found element, stored back by \<^verbatim>\<open>setExpenses\<close>.\<close>

fun replaceFirst :: "('a \<Rightarrow> bool) \<Rightarrow> 'a \<Rightarrow> 'a list \<Rightarrow> 'a list" where
  "replaceFirst P y [] = []"
| "replaceFirst P y (x # xs) = (if P x then y # xs else x # replaceFirst P y xs)"

definition normDecision :: "string \<Rightarrow> verdict" where
  "normDecision d = (if d = ''APPROVE'' then APPROVE else REJECT)"

definition pushDecision :: "expense \<Rightarrow> decision \<Rightarrow> expense" where
  "pushDecision e d =
     (let a = approvals e; i = stepIndex a; s = steps a ! i
      in e\<lparr>approvals := a\<lparr>steps := (steps a)[i := s\<lparr>s_approvals := s_approvals s @ [d]\<rparr>]\<rparr>\<rparr>)"

definition approveOrReject ::
  "string \<Rightarrow> string \<Rightarrow> string \<Rightarrow> string \<Rightarrow> string \<Rightarrow> store \<Rightarrow> (error + string) \<times> store" where
  "approveOrReject expenseId userId dec comment now st =
     (case find (\<lambda>e. e_id e = expenseId) (expenses st) of
        None \<Rightarrow> (Inl NotFound, st)
      | Some e \<Rightarrow>
          if status e \<noteq> ''PENDING'' then (Inl NotPending, st)
          else (case approverEntry (rulesOf st) e of
                  None \<Rightarrow> (Inl NoActiveStep, st)
                | Some s \<Rightarrow>
                    let e1 = pushDecision e \<lparr>d_userId = userId, d_decision = normDecision dec,
                                              d_comment = comment, d_at = now\<rparr>;
                        e2 = rulesEval (rulesOf st) (users st) now e1
                    in (Inr (status e2),
                        st\<lparr>expenses := replaceFirst (\<lambda>x. e_id x = expenseId) e2 (expenses st)\<rparr>)))"

definition adminOverride ::
  "string \<Rightarrow> string \<Rightarrow> string \<Rightarrow> string \<Rightarrow> store \<Rightarrow> (error + unit) \<times> store" where
  "adminOverride expenseId tgt adminId now st =
     (case find (\<lambda>x. e_id x = expenseId) (expenses st) of
        None \<Rightarrow> (Inl NotFound, st)
      | Some e \<Rightarrow>
          let e1 = e\<lparr>status := tgt\<rparr>;
              e2 = e1\<lparr>approvals := (approvals e1)\<lparr>stepIndex := length (steps (approvals e1))\<rparr>\<rparr>;
              e3 = recordHistory now e2 tgt adminId
          in (Inr (), st\<lparr>expenses := replaceFirst (\<lambda>x. e_id x = expenseId) e3 (expenses st)\<rparr>))"

subsection \<open>Expense creation, rule editing, role removal\<close>

text \<open>The record built by \<^verbatim>\<open>handleExpenseSubmit\<close> and stored by \<^verbatim>\<open>addExpense\<close> (unshift).\<close>

definition newExpense :: "string \<Rightarrow> string \<Rightarrow> string \<Rightarrow> rules \<Rightarrow> expense" where
  "newExpense eid uid now r =
     \<lparr> e_id = eid, e_userId = uid, status = ''PENDING'',
       approvals = \<lparr> stepIndex = 0,
                     steps = map (\<lambda>ro. \<lparr>s_role = ro, s_approvals = []\<rparr>) (r_steps r) \<rparr>,
       history = [\<lparr>h_at = now, h_status = ''PENDING'', h_by = uid\<rparr>] \<rparr>"

definition addExpense :: "expense \<Rightarrow> store \<Rightarrow> store" where
  "addExpense ex st = st\<lparr>expenses := ex # expenses st\<rparr>"

definition handleExpenseSubmit :: "string \<Rightarrow> string \<Rightarrow> string \<Rightarrow> store \<Rightarrow> store" where
  "handleExpenseSubmit eid uid now st = addExpense (newExpense eid uid now (rulesOf st)) st"

definition clamp :: "int \<Rightarrow> int \<Rightarrow> int \<Rightarrow> int" where
  "clamp n lo hi = min (max n lo) hi"

text \<open>
  The submit handler of the rules form (\<^verbatim>\<open>bindRulesForm\<close>): the form's values are
  parameters; nothing is stored when the steps editor is empty.
\<close>

definition rulesFormSubmit ::
  "bool \<Rightarrow> int \<Rightarrow> bool \<Rightarrow> string \<Rightarrow> bool \<Rightarrow> string list \<Rightarrow> store \<Rightarrow> store" where
  "rulesFormSubmit pctOn thr cfoOn sel hybOn editorSteps st =
     (let r = rulesOf st;
          r1 = r\<lparr>percentage_enabled := pctOn, percentage_threshold := clamp thr 1 100,
                 specific_enabled := cfoOn,
                 specific_role := (if sel \<noteq> [] then sel else specific_role r),
                 hybrid_enabled := hybOn\<rparr>
      in if length editorSteps = 0 then st
         else st\<lparr>rulesOf := r1\<lparr>r_steps := editorSteps\<rparr>\<rparr>)"

definition removeRole :: "string \<Rightarrow> store \<Rightarrow> store" where
  "removeRole role st =
     (let custom = uniq (filter (\<lambda>r. r \<noteq> role) (customRoles st));
          us = map (\<lambda>u. u\<lparr>u_roles := filter (\<lambda>x. x \<noteq> role) (u_roles u)\<rparr>) (users st);
          r = rulesOf st;
          r1 = (if specific_role r = role then r\<lparr>specific_role := ROLE_CFO\<rparr> else r);
          f = filter (\<lambda>x. x \<noteq> role) (r_steps r1);
          r2 = r1\<lparr>r_steps := (if length f = 0 then [ROLE_MANAGER, ROLE_FINANCE, ROLE_DIRECTOR]
                                else f)\<rparr>
      in st\<lparr>customRoles := custom, users := us, rulesOf := r2\<rparr>)"

text \<open>
  \<^verbatim>\<open>renderRolesList\<close> draws one chip per role, built-in chips carrying
  \<^verbatim>\<open>data-base="true"\<close>; the click handler of the list (\<^verbatim>\<open>bindModals\<close>) returns at
  once on such a chip and otherwise calls \<^verbatim>\<open>removeRole\<close> after \<^verbatim>\<open>confirm\<close>.
\<close>

definition renderRolesList :: "store \<Rightarrow> (string \<times> bool) list" where
  "renderRolesList st = map (\<lambda>r. (r, True)) BASE_ROLES @ map (\<lambda>r. (r, False)) (customRoles st)"

definition rolesListClick :: "string \<times> bool \<Rightarrow> bool \<Rightarrow> store \<Rightarrow> store" where
  "rolesListClick chip confirmed st =
     (if snd chip then st
      else if confirmed then removeRole (fst chip) st
      else st)"

section \<open>The earlier engine (src/unnamed/part_000)\<close>

definition hasRole_p0 :: "user \<Rightarrow> string \<Rightarrow> bool" where
  "hasRole_p0 u role = (role \<in> set (u_roles u))"

text \<open>Here the current role is read from the rule set: \<^verbatim>\<open>rules.steps[idx] || null\<close>.\<close>

definition getCurrentStep_p0 :: "rules \<Rightarrow> expense \<Rightarrow> nat \<times> string option" where
  "getCurrentStep_p0 r e =
     (let sts = r_steps r; idx = stepIndex (approvals e)
      in (idx, if idx < length sts \<and> sts ! idx \<noteq> [] then Some (sts ! idx) else None))"

text \<open>\<^verbatim>\<open>expense.approvals.steps[idx]\<close> is undefined past the end of the expense's own steps.\<close>

definition approverEntry_p0 :: "rules \<Rightarrow> expense \<Rightarrow> step option" where
  "approverEntry_p0 r e =
     (case getCurrentStep_p0 r e of
        (idx, None) \<Rightarrow> None
      | (idx, Some role) \<Rightarrow>
          if idx < length (steps (approvals e)) then Some (steps (approvals e) ! idx) else None)"

text \<open>
  The nested loops of the CFO override, over the decisions of all steps in order: the
  first decision that is an APPROVE of a known user holding the role gives that user.
\<close>

fun specificApprover :: "string \<Rightarrow> user list \<Rightarrow> decision list \<Rightarrow> user option" where
  "specificApprover role us [] = None"
| "specificApprover role us (a # as) =
     (case find (\<lambda>x. u_id x = d_userId a) us of
        None \<Rightarrow> specificApprover role us as
      | Some u \<Rightarrow> if d_decision a = APPROVE \<and> hasRole_p0 u role then Some u
                  else specificApprover role us as)"

definition allDecisions :: "expense \<Rightarrow> decision list" where
  "allDecisions e = concat (map s_approvals (steps (approvals e)))"

text \<open>
  \<^verbatim>\<open>pct = (approved/total)*100\<close> is a double in the source; it is a rational here.
  The comparison is reached only when no decision of the step is a REJECT, where
  the two counts agree and the double is exactly 100.
\<close>

definition percentagePass_p0 :: "rules \<Rightarrow> nat \<Rightarrow> nat \<Rightarrow> bool" where
  "percentagePass_p0 r approved tot =
     ((of_nat approved / of_nat tot) * (100::rat)
        \<ge> of_int (clamp (if percentage_threshold r = 0 then 50 else percentage_threshold r) 1 100))"

definition rulesEval_p0 :: "rules \<Rightarrow> user list \<Rightarrow> string \<Rightarrow> expense \<Rightarrow> expense" where
  "rulesEval_p0 r us now e =
     (case approverEntry_p0 r e of
        None \<Rightarrow> e
      | Some stp \<Rightarrow>
          (case (if specific_enabled r then specificApprover (specific_role r) us (allDecisions e)
                 else None) of
             Some u \<Rightarrow>
               recordHistory now
                 (e\<lparr>status := ''APPROVED'',
                    approvals := (approvals e)\<lparr>stepIndex := length (r_steps r)\<rparr>\<rparr>)
                 ''APPROVED'' (u_id u)
           | None \<Rightarrow>
               let apprs = s_approvals stp;
                   tot = length apprs;
                   approved = length (filter (\<lambda>a. d_decision a = APPROVE) apprs);
                   rejected = length (filter (\<lambda>a. d_decision a = REJECT) apprs)
               in if rejected > 0
                  then recordHistory now (e\<lparr>status := ''REJECTED''\<rparr>) ''REJECTED'' (lastBy apprs)
                  else
                    let pass = (if percentage_enabled r \<and> tot > 0
                                then percentagePass_p0 r approved tot
                                else approved > 0)
                    in if pass
                       then (let next = stepIndex (approvals e) + 1
                             in if next \<ge> length (r_steps r)
                                then recordHistory now (e\<lparr>status := ''APPROVED''\<rparr>)
                                       ''APPROVED'' (lastBy apprs)
                                else e\<lparr>approvals := (approvals e)\<lparr>stepIndex := next\<rparr>\<rparr>)
                       else e))"

definition approveOrReject_p0 ::
  "string \<Rightarrow> string \<Rightarrow> string \<Rightarrow> string \<Rightarrow> string \<Rightarrow> store \<Rightarrow> (error + string) \<times> store" where
  "approveOrReject_p0 expenseId userId dec comment now st =
     (case find (\<lambda>e. e_id e = expenseId) (expenses st) of
        None \<Rightarrow> (Inl NotFound, st)
      | Some e \<Rightarrow>
          if status e \<noteq> ''PENDING'' then (Inl NotPending, st)
          else (case approverEntry_p0 (rulesOf st) e of
                  None \<Rightarrow> (Inl NoActiveStep, st)
                | Some s \<Rightarrow>
                    let e1 = pushDecision e \<lparr>d_userId = userId, d_decision = normDecision dec,
                                              d_comment = comment, d_at = now\<rparr>;
                        e2 = rulesEval_p0 (rulesOf st) (users st) now e1
                    in (Inr (status e2),
                        st\<lparr>expenses := replaceFirst (\<lambda>x. e_id x = expenseId) e2 (expenses st)\<rparr>)))"

definition adminOverride_p0 ::
  "string \<Rightarrow> string \<Rightarrow> string \<Rightarrow> string \<Rightarrow> store \<Rightarrow> (error + unit) \<times> store" where
  "adminOverride_p0 expenseId tgt adminId now st =
     (case find (\<lambda>x. e_id x = expenseId) (expenses st) of
        None \<Rightarrow> (Inl NotFound, st)
      | Some e \<Rightarrow>
          let e1 = e\<lparr>status := tgt\<rparr>;
              e2 = e1\<lparr>approvals := (approvals e1)\<lparr>stepIndex := length (r_steps (rulesOf st))\<rparr>\<rparr>;
              e3 = recordHistory now e2 tgt adminId
          in (Inr (), st\<lparr>expenses := replaceFirst (\<lambda>x. e_id x = expenseId) e3 (expenses st)\<rparr>))"

section \<open>Sample data\<close>

text \<open>The users that \<^verbatim>\<open>seedIfNeeded\<close> stores on the first run.\<close>

definition seedUsers :: "user list" where
  "seedUsers =
     [\<lparr>u_id = ''u-admin'', u_name = ''System Admin'', u_roles = [ROLE_ADMIN], u_managerId = []\<rparr>,
      \<lparr>u_id = ''u-manager'', u_name = ''Mary Manager'', u_roles = [ROLE_MANAGER], u_managerId = []\<rparr>,
      \<lparr>u_id = ''u-emp'', u_name = ''Evan Employee'', u_roles = [ROLE_EMPLOYEE],
        u_managerId = ''u-manager''\<rparr>,
      \<lparr>u_id = ''u-fin'', u_name = ''Frank Finance'', u_roles = [ROLE_FINANCE], u_managerId = []\<rparr>,
      \<lparr>u_id = ''u-dir'', u_name = ''Dina Director'', u_roles = [ROLE_DIRECTOR], u_managerId = []\<rparr>,
      \<lparr>u_id = ''u-cfo'', u_name = ''Cindy CFO'', u_roles = [ROLE_FINANCE, ROLE_CFO],
        u_managerId = []\<rparr>]"

text \<open>The seeded users and an employee who has no manager.\<close>

definition soloUsers :: "user list" where
  "soloUsers = seedUsers @
     [\<lparr>u_id = ''u-solo'', u_name = ''Sam Solo'', u_roles = [ROLE_EMPLOYEE], u_managerId = []\<rparr>]"

definition mkDecision :: "string \<Rightarrow> verdict \<Rightarrow> decision" where
  "mkDecision uid v = \<lparr>d_userId = uid, d_decision = v, d_comment = [], d_at = ''t1''\<rparr>"

definition mkExpense :: "string \<Rightarrow> nat \<Rightarrow> step list \<Rightarrow> expense" where
  "mkExpense uid idx sts =
     \<lparr>e_id = ''e1'', e_userId = uid, status = ''PENDING'',
      approvals = \<lparr>stepIndex = idx, steps = sts\<rparr>,
      history = [\<lparr>h_at = ''t0'', h_status = ''PENDING'', h_by = uid\<rparr>]\<rparr>"

definition mkStore :: "rules \<Rightarrow> expense list \<Rightarrow> store" where
  "mkStore r es = \<lparr>users = seedUsers, rulesOf = r, customRoles = [], expenses = es\<rparr>"

text \<open>A fresh expense of the seeded employee on the default chain.\<close>

definition pendingSeed :: expense where
  "pendingSeed =
     mkExpense ''u-emp'' 0
       [\<lparr>s_role = ROLE_MANAGER, s_approvals = []\<rparr>,
        \<lparr>s_role = ROLE_FINANCE, s_approvals = []\<rparr>,
        \<lparr>s_role = ROLE_DIRECTOR, s_approvals = []\<rparr>]"

text \<open>The seeded approved expense: every step decided, cursor past the end.\<close>

definition approvedSeed :: expense where
  "approvedSeed =
     (mkExpense ''u-emp'' 3
        [\<lparr>s_role = ROLE_MANAGER, s_approvals = [mkDecision ''u-manager'' APPROVE]\<rparr>,
         \<lparr>s_role = ROLE_FINANCE, s_approvals = [mkDecision ''u-fin'' APPROVE]\<rparr>,
         \<lparr>s_role = ROLE_DIRECTOR, s_approvals = [mkDecision ''u-dir'' APPROVE]\<rparr>])
     \<lparr>status := ''APPROVED''\<rparr>"

text \<open>A manager step approved by the manager and then rejected by the administrator.\<close>

definition rejectedAfterApprove :: expense where
  "rejectedAfterApprove =
     mkExpense ''u-emp'' 0
       [\<lparr>s_role = ROLE_MANAGER,
          s_approvals = [mkDecision ''u-manager'' APPROVE, mkDecision ''u-admin'' REJECT]\<rparr>,
        \<lparr>s_role = ROLE_FINANCE, s_approvals = []\<rparr>]"

text \<open>The finance step with one of the two holders of FINANCE having approved.\<close>

definition financeHalf :: expense where
  "financeHalf =
     mkExpense ''u-emp'' 1
       [\<lparr>s_role = ROLE_MANAGER, s_approvals = [mkDecision ''u-manager'' APPROVE]\<rparr>,
        \<lparr>s_role = ROLE_FINANCE, s_approvals = [mkDecision ''u-fin'' APPROVE]\<rparr>,
        \<lparr>s_role = ROLE_DIRECTOR, s_approvals = []\<rparr>]"

text \<open>Expenses of the employee without a manager, waiting at the manager step.\<close>

definition soloRejected :: expense where
  "soloRejected =
     mkExpense ''u-solo'' 0
       [\<lparr>s_role = ROLE_MANAGER, s_approvals = [mkDecision ''u-admin'' REJECT]\<rparr>,
        \<lparr>s_role = ROLE_FINANCE, s_approvals = []\<rparr>]"

definition soloSingle :: expense where
  "soloSingle = mkExpense ''u-solo'' 0 [\<lparr>s_role = ROLE_MANAGER, s_approvals = []\<rparr>]"

definition soloTwo :: expense where
  "soloTwo =
     mkExpense ''u-solo'' 0
       [\<lparr>s_role = ROLE_MANAGER, s_approvals = []\<rparr>,
        \<lparr>s_role = ROLE_FINANCE, s_approvals = []\<rparr>]"

text \<open>
  Decisions by the manager, then by two holders of FINANCE, the holder of CFO first;
  the cursor is at the director step.
\<close>

definition twoQualified :: expense where
  "twoQualified =
     mkExpense ''u-emp'' 2
       [\<lparr>s_role = ROLE_MANAGER, s_approvals = [mkDecision ''u-manager'' APPROVE]\<rparr>,
        \<lparr>s_role = ROLE_FINANCE,
          s_approvals = [mkDecision ''u-cfo'' APPROVE, mkDecision ''u-fin'' APPROVE]\<rparr>,
        \<lparr>s_role = ROLE_DIRECTOR, s_approvals = []\<rparr>]"

text \<open>A store with one custom role, used by a user, as the only step and as the specific approver.\<close>

definition auditorStore :: store where
  "auditorStore =
     \<lparr>users = [\<lparr>u_id = ''u-aud'', u_name = ''Ann Auditor'', u_roles = [ROLE_FINANCE, ''AUDITOR''],
                 u_managerId = []\<rparr>,
               \<lparr>u_id = ''u-emp'', u_name = ''Evan Employee'', u_roles = [ROLE_EMPLOYEE],
                 u_managerId = []\<rparr>],
      rulesOf = DEFAULT_RULES\<lparr>r_steps := [''AUDITOR''], specific_role := ''AUDITOR''\<rparr>,
      customRoles = [''AUDITOR''],
      expenses = []\<rparr>"

section \<open>Properties\<close>

subsection \<open>Auxiliary facts\<close>

lemmas role_names = ROLE_EMPLOYEE_def ROLE_MANAGER_def ROLE_FINANCE_def ROLE_DIRECTOR_def
  ROLE_ADMIN_def ROLE_CFO_def

lemma find_replaceFirst:
  "find P xs = Some x \<Longrightarrow> P y \<Longrightarrow> find P (replaceFirst P y xs) = Some y"
  by (induction xs) (auto split: if_splits)

lemma find_Some_holds: "find P xs = Some x \<Longrightarrow> P x"
  by (induction xs) (auto split: if_splits)

lemma set_uniq: "set (uniq xs) = set xs"
  by (simp add: uniq_def)

text \<open>
  No user holds a step record as a role, and a step record is not the string MANAGER:
  on the value that \<open>getCurrentStep\<close> of the current engine returns as the role,
  \<open>eligibleApproverIds\<close> is the empty list.
\<close>

lemma hasRole_step_record: "hasRole u (JStep s) = False"
  by (auto simp: hasRole_def)

lemma eligibleApproverIds_step_record: "eligibleApproverIds us e (Some (JStep s)) = []"
  by (simp add: eligibleApproverIds_def hasRole_step_record)

lemma eligibleApproverIds_current: "eligibleApproverIds us e (snd (getCurrentStep r e)) = []"
  by (auto simp: getCurrentStep_def Let_def eligibleApproverIds_def hasRole_step_record)

lemma advanceStep_steps: "steps (approvals (advanceStep now apprs e)) = steps (approvals e)"
  by (simp add: advanceStep_def Let_def recordHistory_def)

lemma rulesEval_steps: "steps (approvals (rulesEval r us now e)) = steps (approvals e)"
  by (simp add: rulesEval_def getCurrentStep_def Let_def recordHistory_def advanceStep_steps)

text \<open>Hence, in the current engine, every active step without a REJECT passes.\<close>

lemma rulesEval_without_reject:
  assumes "stepIndex (approvals e) < length (steps (approvals e))"
    and "\<not> list_ex (\<lambda>a. d_decision a = REJECT)
           (s_approvals (steps (approvals e) ! stepIndex (approvals e)))"
  shows "rulesEval r us now e
           = advanceStep now (s_approvals (steps (approvals e) ! stepIndex (approvals e))) e"
  using assms
  by (simp add: rulesEval_def getCurrentStep_def Let_def eligibleApproverIds_step_record)

lemma rulesEval_on_reject:
  assumes "stepIndex (approvals e) < length (steps (approvals e))"
    and "list_ex (\<lambda>a. d_decision a = REJECT)
           (s_approvals (steps (approvals e) ! stepIndex (approvals e)))"
  shows "rulesEval r us now e =
           recordHistory now (e\<lparr>status := ''REJECTED''\<rparr>) ''REJECTED''
             (lastBy (s_approvals (steps (approvals e) ! stepIndex (approvals e))))"
  using assms by (simp add: rulesEval_def getCurrentStep_def Let_def)

lemma advanceStep_id: "e_id (advanceStep now apprs e) = e_id e"
  by (simp add: advanceStep_def Let_def recordHistory_def)

lemma rulesEval_id: "e_id (rulesEval r us now e) = e_id e"
  by (simp add: rulesEval_def getCurrentStep_def Let_def recordHistory_def advanceStep_id)

lemma pushDecision_current:
  "stepIndex (approvals e) < length (steps (approvals e)) \<Longrightarrow>
   s_approvals (steps (approvals (pushDecision e d)) ! stepIndex (approvals e))
     = s_approvals (steps (approvals e) ! stepIndex (approvals e)) @ [d]"
  by (simp add: pushDecision_def Let_def)

lemma pushDecision_frame:
  "stepIndex (approvals (pushDecision e d)) = stepIndex (approvals e)
   \<and> length (steps (approvals (pushDecision e d))) = length (steps (approvals e))
   \<and> e_id (pushDecision e d) = e_id e
   \<and> status (pushDecision e d) = status e"
  by (simp add: pushDecision_def Let_def)

subsection \<open>Facts about the earlier engine\<close>

lemma count_no_reject:
  "\<not> list_ex (\<lambda>a. d_decision a = REJECT) ds \<Longrightarrow>
   filter (\<lambda>a. d_decision a = REJECT) ds = [] \<and> filter (\<lambda>a. d_decision a = APPROVE) ds = ds"
proof (induction ds)
  case Nil
  then show ?case by simp
next
  case (Cons a ds)
  then show ?case by (cases "d_decision a") auto
qed

lemma percentagePass_all: "0 < n \<Longrightarrow> percentagePass_p0 r n n"
  by (simp add: percentagePass_p0_def clamp_def)

lemma specificApprover_find:
  "specificApprover role us ds =
     (case find (\<lambda>b. d_decision b = APPROVE \<and>
                     (case find (\<lambda>x. u_id x = d_userId b) us of
                        None \<Rightarrow> False | Some w \<Rightarrow> hasRole_p0 w role)) ds of
        None \<Rightarrow> None
      | Some a \<Rightarrow> find (\<lambda>x. u_id x = d_userId a) us)"
  by (induction ds) (auto split: option.splits)

text \<open>The earlier engine: without a REJECT and without the override, any decision passes the step.\<close>

lemma rulesEval_p0_pass:
  assumes "approverEntry_p0 r e = Some s"
    and "(if specific_enabled r then specificApprover (specific_role r) us (allDecisions e)
          else None) = None"
    and "\<not> list_ex (\<lambda>a. d_decision a = REJECT) (s_approvals s)"
  shows "rulesEval_p0 r us now e =
           (if s_approvals s = [] then e
            else if stepIndex (approvals e) + 1 \<ge> length (r_steps r)
                 then recordHistory now (e\<lparr>status := ''APPROVED''\<rparr>) ''APPROVED''
                        (lastBy (s_approvals s))
                 else e\<lparr>approvals := (approvals e)\<lparr>stepIndex := stepIndex (approvals e) + 1\<rparr>\<rparr>)"
  using assms(1,2) count_no_reject [OF assms(3)]
  by (simp add: rulesEval_p0_def Let_def percentagePass_all)

text \<open>There one approval of two holders of FINANCE passes the finance step, the hybrid mode off.\<close>

lemma rulesEval_p0_single_approval:
  "stepIndex (approvals (rulesEval_p0 (DEFAULT_RULES\<lparr>hybrid_enabled := False\<rparr>) seedUsers ''t2''
        financeHalf)) = 2"
  by (simp add: financeHalf_def mkExpense_def mkDecision_def DEFAULT_RULES_def seedUsers_def
      Let_def rulesEval_p0_def approverEntry_p0_def
      getCurrentStep_p0_def allDecisions_def hasRole_p0_def percentagePass_p0_def clamp_def
      role_names)

text \<open>There a REJECT at the active step rejects the expense unless the override fires first.\<close>

lemma rulesEval_p0_reject:
  assumes "approverEntry_p0 r e = Some s"
    and "(if specific_enabled r then specificApprover (specific_role r) us (allDecisions e)
          else None) = None"
    and "list_ex (\<lambda>a. d_decision a = REJECT) (s_approvals s)"
  shows "rulesEval_p0 r us now e =
           recordHistory now (e\<lparr>status := ''REJECTED''\<rparr>) ''REJECTED'' (lastBy (s_approvals s))"
proof -
  have "filter (\<lambda>a. d_decision a = REJECT) (s_approvals s) \<noteq> []"
    using assms(3) by (induction "s_approvals s") (auto simp: filter_empty_conv list_ex_iff)
  then show ?thesis
    using assms(1,2) by (simp add: rulesEval_p0_def Let_def)
qed

text \<open>There the current role and the cursor of a concluded expense follow the rule set.\<close>

lemma getCurrentStep_p0_follows_rules:
  "snd (getCurrentStep_p0 DEFAULT_RULES pendingSeed) = Some ROLE_MANAGER
   \<and> snd (getCurrentStep_p0 (DEFAULT_RULES\<lparr>r_steps := [ROLE_FINANCE]\<rparr>) pendingSeed)
       = Some ROLE_FINANCE"
  by (simp add: getCurrentStep_p0_def Let_def DEFAULT_RULES_def pendingSeed_def mkExpense_def
      role_names)

lemma adminOverride_p0_cursor:
  "length (steps (approvals pendingSeed)) = 3
   \<and> map (stepIndex \<circ> approvals)
        (expenses (snd (adminOverride_p0 ''e1'' ''APPROVED'' ''u-admin'' ''t2''
           (mkStore (DEFAULT_RULES\<lparr>r_steps := [ROLE_FINANCE]\<rparr>) [pendingSeed])))) = [1]"
  by (simp add: adminOverride_p0_def Let_def recordHistory_def mkStore_def DEFAULT_RULES_def
      pendingSeed_def mkExpense_def)

subsection \<open>Step evaluation\<close>

text \<open>
  Claim C1 asks that a step with a non-empty eligible set advance exactly when the pass
  condition holds, which is unanimity of the eligible approvers when the hybrid mode is
  off. The current engine does not do so at this input: the hybrid mode is off, the
  expense waits at its FINANCE step, the holders of FINANCE are two and only one of them
  has approved, so unanimity fails; but \<open>getCurrentStep\<close> hands the step record, not
  its role name, to \<open>eligibleApproverIds\<close>, the eligible list comes out empty, and
  \<open>rulesEval\<close> moves the cursor from 1 to 2.
\<close>

theorem rulesEval_unanimity_failing_input:
  "status financeHalf = ''PENDING''
   \<and> stepIndex (approvals financeHalf) = 1
   \<and> s_role (steps (approvals financeHalf) ! 1) = ROLE_FINANCE
   \<and> eligibleApproverIds seedUsers financeHalf (Some (JStr ROLE_FINANCE)) = [''u-fin'', ''u-cfo'']
   \<and> approvedUserIds (s_approvals (steps (approvals financeHalf) ! 1)) = [''u-fin'']
   \<and> \<not> list_all (\<lambda>i. i \<in> set (approvedUserIds (s_approvals (steps (approvals financeHalf) ! 1))))
         (eligibleApproverIds seedUsers financeHalf (Some (JStr ROLE_FINANCE)))
   \<and> \<not> hybrid_enabled (DEFAULT_RULES\<lparr>hybrid_enabled := False\<rparr>)
   \<and> snd (getCurrentStep (DEFAULT_RULES\<lparr>hybrid_enabled := False\<rparr>) financeHalf)
       = Some (JStep (steps (approvals financeHalf) ! 1))
   \<and> eligibleApproverIds seedUsers financeHalf
         (snd (getCurrentStep (DEFAULT_RULES\<lparr>hybrid_enabled := False\<rparr>) financeHalf)) = []
   \<and> stepIndex (approvals (rulesEval (DEFAULT_RULES\<lparr>hybrid_enabled := False\<rparr>) seedUsers ''t2''
        financeHalf)) = 2
   \<and> status (rulesEval (DEFAULT_RULES\<lparr>hybrid_enabled := False\<rparr>) seedUsers ''t2'' financeHalf)
       = ''PENDING''"
  by (simp add: financeHalf_def mkExpense_def mkDecision_def DEFAULT_RULES_def seedUsers_def
      eligibleApproverIds_def hasRole_def approvedUserIds_def uniq_def rulesEval_def
      getCurrentStep_def Let_def advanceStep_def role_names)

text \<open>
  Claim C2, as the code has it: the specific-approver scan is in the earlier engine only.
  There, when the rule is enabled and the expense has an active step, an APPROVE decision
  at any step by a known user holding the configured role makes \<open>rulesEval_p0\<close> set the
  status to APPROVED, set the cursor to the length of the rule set's steps and append
  one history entry whose author is the author of the first such decision, the
  decisions of all steps taken in order, whatever the other steps hold.
\<close>

theorem rulesEval_p0_first_specific:
  assumes "specific_enabled r"
    and "approverEntry_p0 r e = Some s"
    and "a \<in> set (allDecisions e)"
    and "d_decision a = APPROVE"
    and "find (\<lambda>x. u_id x = d_userId a) us = Some v"
    and "hasRole_p0 v (specific_role r)"
  shows "\<exists>a' u. find (\<lambda>b. d_decision b = APPROVE \<and>
                         (case find (\<lambda>x. u_id x = d_userId b) us of
                            None \<Rightarrow> False | Some w \<Rightarrow> hasRole_p0 w (specific_role r)))
                    (allDecisions e) = Some a'
            \<and> d_decision a' = APPROVE
            \<and> find (\<lambda>x. u_id x = d_userId a') us = Some u
            \<and> hasRole_p0 u (specific_role r)
            \<and> rulesEval_p0 r us now e
                = e\<lparr>status := ''APPROVED'',
                    approvals := (approvals e)\<lparr>stepIndex := length (r_steps r)\<rparr>,
                    history := history e @
                      [\<lparr>h_at = now, h_status = ''APPROVED'', h_by = u_id u\<rparr>]\<rparr>"
proof -
  let ?q = "\<lambda>b. d_decision b = APPROVE \<and>
                 (case find (\<lambda>x. u_id x = d_userId b) us of
                    None \<Rightarrow> False | Some w \<Rightarrow> hasRole_p0 w (specific_role r))"
  have "?q a" using assms(4-6) by simp
  then have "find ?q (allDecisions e) \<noteq> None"
    using assms(3) by (auto simp: find_None_iff)
  then obtain a' where a': "find ?q (allDecisions e) = Some a'" by blast
  then have q: "?q a'" by (rule find_Some_holds)
  then obtain u where u: "find (\<lambda>x. u_id x = d_userId a') us = Some u"
      "hasRole_p0 u (specific_role r)"
    by (auto split: option.splits)
  have sp: "specificApprover (specific_role r) us (allDecisions e) = Some u"
    by (simp add: specificApprover_find [of "specific_role r" us "allDecisions e"] a' u(1))
  have "rulesEval_p0 r us now e
          = e\<lparr>status := ''APPROVED'',
              approvals := (approvals e)\<lparr>stepIndex := length (r_steps r)\<rparr>,
              history := history e @ [\<lparr>h_at = now, h_status = ''APPROVED'', h_by = u_id u\<rparr>]\<rparr>"
    using assms(1,2) sp by (simp add: rulesEval_p0_def recordHistory_def)
  with a' q u show ?thesis by blast
qed

theorem rulesEval_p0_first_specific_witness:
  "map d_userId (allDecisions twoQualified) = [''u-manager'', ''u-cfo'', ''u-fin'']
   \<and> status (rulesEval_p0 (DEFAULT_RULES\<lparr>specific_role := ROLE_FINANCE\<rparr>) seedUsers ''t2''
         twoQualified) = ''APPROVED''
   \<and> stepIndex (approvals (rulesEval_p0 (DEFAULT_RULES\<lparr>specific_role := ROLE_FINANCE\<rparr>) seedUsers
         ''t2'' twoQualified)) = 3
   \<and> map h_by (history (rulesEval_p0 (DEFAULT_RULES\<lparr>specific_role := ROLE_FINANCE\<rparr>) seedUsers
         ''t2'' twoQualified)) = [''u-emp'', ''u-cfo'']"
proof -
  let ?r = "DEFAULT_RULES\<lparr>specific_role := ROLE_FINANCE\<rparr>"
  let ?fin = "\<lparr>u_id = ''u-fin'', u_name = ''Frank Finance'', u_roles = [ROLE_FINANCE],
               u_managerId = []\<rparr>"
  have en: "specific_enabled ?r" by (simp add: DEFAULT_RULES_def)
  have st: "approverEntry_p0 ?r twoQualified = Some \<lparr>s_role = ROLE_DIRECTOR, s_approvals = []\<rparr>"
    by (simp add: approverEntry_p0_def getCurrentStep_p0_def Let_def
        DEFAULT_RULES_def twoQualified_def mkExpense_def role_names)
  have m: "mkDecision ''u-fin'' APPROVE \<in> set (allDecisions twoQualified)"
    by (simp add: allDecisions_def twoQualified_def mkExpense_def)
  have d: "d_decision (mkDecision ''u-fin'' APPROVE) = APPROVE" by (simp add: mkDecision_def)
  have f: "find (\<lambda>x. u_id x = d_userId (mkDecision ''u-fin'' APPROVE)) seedUsers = Some ?fin"
    by (simp add: seedUsers_def mkDecision_def)
  have h: "hasRole_p0 ?fin (specific_role ?r)"
    by (simp add: hasRole_p0_def DEFAULT_RULES_def)
  have first: "find (\<lambda>b. d_decision b = APPROVE \<and>
                         (case find (\<lambda>x. u_id x = d_userId b) seedUsers of
                            None \<Rightarrow> False | Some w \<Rightarrow> hasRole_p0 w (specific_role ?r)))
                 (allDecisions twoQualified) = Some (mkDecision ''u-cfo'' APPROVE)"
    by (simp add: allDecisions_def twoQualified_def mkExpense_def mkDecision_def seedUsers_def
        hasRole_p0_def DEFAULT_RULES_def role_names)
  have cfo: "map_option u_id (find (\<lambda>x. u_id x = d_userId (mkDecision ''u-cfo'' APPROVE)) seedUsers)
             = Some ''u-cfo''"
    by (simp add: seedUsers_def mkDecision_def)
  obtain a' u where r:
    "find (\<lambda>b. d_decision b = APPROVE \<and>
                (case find (\<lambda>x. u_id x = d_userId b) seedUsers of
                   None \<Rightarrow> False | Some w \<Rightarrow> hasRole_p0 w (specific_role ?r)))
        (allDecisions twoQualified) = Some a'"
    "find (\<lambda>x. u_id x = d_userId a') seedUsers = Some u"
    "rulesEval_p0 ?r seedUsers ''t2'' twoQualified
       = twoQualified\<lparr>status := ''APPROVED'',
           approvals := (approvals twoQualified)\<lparr>stepIndex := length (r_steps ?r)\<rparr>,
           history := history twoQualified @
             [\<lparr>h_at = ''t2'', h_status = ''APPROVED'', h_by = u_id u\<rparr>]\<rparr>"
    using rulesEval_p0_first_specific [OF en st m d f h, of "''t2''"] by blast
  have "a' = mkDecision ''u-cfo'' APPROVE" using r(1) first by simp
  then have "u_id u = ''u-cfo''" using r(2) cfo by auto
  moreover have "map d_userId (allDecisions twoQualified) = [''u-manager'', ''u-cfo'', ''u-fin'']"
    by (simp add: allDecisions_def twoQualified_def mkExpense_def mkDecision_def)
  ultimately show ?thesis
    using r(3) by (simp add: DEFAULT_RULES_def twoQualified_def mkExpense_def)
qed

text \<open>
  Claim C2 as stated fails on the current engine: with the rule enabled for CFO, an
  APPROVE recorded by the holder of CFO at the first of three steps leaves the expense
  PENDING with the cursor at 1.
\<close>

theorem specific_approver_counterexample:
  "specific_enabled DEFAULT_RULES
   \<and> specific_role DEFAULT_RULES = ROLE_CFO
   \<and> map u_roles (filter (\<lambda>u. u_id u = ''u-cfo'') seedUsers) = [[ROLE_FINANCE, ROLE_CFO]]
   \<and> length (steps (approvals pendingSeed)) = 3
   \<and> fst (approveOrReject ''e1'' ''u-cfo'' ''APPROVE'' ''fine'' ''t2'' (mkStore DEFAULT_RULES [pendingSeed]))
       = Inr ''PENDING''
   \<and> map (stepIndex \<circ> approvals)
        (expenses (snd (approveOrReject ''e1'' ''u-cfo'' ''APPROVE'' ''fine'' ''t2''
           (mkStore DEFAULT_RULES [pendingSeed])))) = [1]"
  by (simp add: approveOrReject_def approverEntry_def getCurrentStep_def Let_def mkStore_def
      pendingSeed_def mkExpense_def pushDecision_def rulesEval_def normDecision_def
      eligibleApproverIds_step_record advanceStep_def DEFAULT_RULES_def seedUsers_def role_names)

text \<open>
  Claim C3. For an expense with an active step whose decision list holds a REJECT,
  \<open>rulesEval\<close> of the current engine sets the status to REJECTED, whatever APPROVE
  decisions the step holds, appends one history entry whose author is the author of the
  last decision of the step, and changes nothing else: the cursor and every step,
  the later ones included, are as before.
\<close>

theorem rulesEval_reject:
  assumes "stepIndex (approvals e) < length (steps (approvals e))"
    and "list_ex (\<lambda>a. d_decision a = REJECT)
           (s_approvals (steps (approvals e) ! stepIndex (approvals e)))"
  shows "rulesEval r us now e =
           e\<lparr>status := ''REJECTED'',
             history := history e @
               [\<lparr>h_at = now, h_status = ''REJECTED'',
                 h_by = d_userId (last (s_approvals (steps (approvals e) ! stepIndex (approvals e))))\<rparr>]\<rparr>"
proof -
  let ?apprs = "s_approvals (steps (approvals e) ! stepIndex (approvals e))"
  have ne: "?apprs \<noteq> []" using assms(2) by auto
  show ?thesis
    using assms ne
    by (simp add: rulesEval_def getCurrentStep_def Let_def recordHistory_def lastBy_def)
qed

theorem rulesEval_reject_witness:
  "status (rulesEval DEFAULT_RULES seedUsers ''t2'' rejectedAfterApprove) = ''REJECTED''
   \<and> map h_by (history (rulesEval DEFAULT_RULES seedUsers ''t2'' rejectedAfterApprove))
       = [''u-emp'', ''u-admin'']
   \<and> approvals (rulesEval DEFAULT_RULES seedUsers ''t2'' rejectedAfterApprove)
       = approvals rejectedAfterApprove"
proof -
  have h1: "stepIndex (approvals rejectedAfterApprove)
            < length (steps (approvals rejectedAfterApprove))"
    by (simp add: rejectedAfterApprove_def mkExpense_def)
  have h2: "list_ex (\<lambda>a. d_decision a = REJECT)
       (s_approvals (steps (approvals rejectedAfterApprove)
          ! stepIndex (approvals rejectedAfterApprove)))"
    by (simp add: rejectedAfterApprove_def mkExpense_def mkDecision_def)
  show ?thesis
    using rulesEval_reject [OF h1 h2, of DEFAULT_RULES seedUsers "''t2''"]
    by (simp add: rejectedAfterApprove_def mkExpense_def mkDecision_def)
qed

text \<open>
  Claim C4, as the code has it. For a pending expense with an active step that holds no
  REJECT decision and whose eligible list is empty, \<open>rulesEval\<close> passes the step with no
  decision required: while a later step exists the cursor moves on by one and the
  expense stays PENDING; on the last step the expense becomes APPROVED, with one history
  entry, the steps as before.
\<close>

theorem rulesEval_autoskip:
  assumes "status e = ''PENDING''"
    and "stepIndex (approvals e) < length (steps (approvals e))"
    and "\<not> list_ex (\<lambda>a. d_decision a = REJECT)
           (s_approvals (steps (approvals e) ! stepIndex (approvals e)))"
    and "eligibleApproverIds us e (snd (getCurrentStep r e)) = []"
  shows "(stepIndex (approvals e) + 1 < length (steps (approvals e)) \<longrightarrow>
            rulesEval r us now e
              = e\<lparr>approvals := (approvals e)\<lparr>stepIndex := stepIndex (approvals e) + 1\<rparr>\<rparr>
            \<and> status (rulesEval r us now e) = ''PENDING'')
       \<and> (length (steps (approvals e)) \<le> stepIndex (approvals e) + 1 \<longrightarrow>
            status (rulesEval r us now e) = ''APPROVED''
            \<and> history (rulesEval r us now e)
                = history e @
                  [\<lparr>h_at = now, h_status = ''APPROVED'',
                    h_by = lastBy (s_approvals (steps (approvals e) ! stepIndex (approvals e)))\<rparr>]
            \<and> steps (approvals (rulesEval r us now e)) = steps (approvals e))"
  using assms
  by (simp add: rulesEval_def getCurrentStep_def Let_def recordHistory_def advanceStep_def)

theorem rulesEval_autoskip_witness:
  "stepIndex (approvals (rulesEval DEFAULT_RULES soloUsers ''t2'' soloTwo)) = 1
   \<and> status (rulesEval DEFAULT_RULES soloUsers ''t2'' soloTwo) = ''PENDING''
   \<and> status (rulesEval DEFAULT_RULES soloUsers ''t2'' soloSingle) = ''APPROVED''
   \<and> map h_by (history (rulesEval DEFAULT_RULES soloUsers ''t2'' soloSingle)) = [''u-solo'', []]"
proof -
  have p2: "status soloTwo = ''PENDING''" and p1: "status soloSingle = ''PENDING''"
    by (simp_all add: soloTwo_def soloSingle_def mkExpense_def)
  have a2: "stepIndex (approvals soloTwo) < length (steps (approvals soloTwo))"
    and a1: "stepIndex (approvals soloSingle) < length (steps (approvals soloSingle))"
    by (simp_all add: soloTwo_def soloSingle_def mkExpense_def)
  have n2: "\<not> list_ex (\<lambda>a. d_decision a = REJECT)
           (s_approvals (steps (approvals soloTwo) ! stepIndex (approvals soloTwo)))"
    and n1: "\<not> list_ex (\<lambda>a. d_decision a = REJECT)
           (s_approvals (steps (approvals soloSingle) ! stepIndex (approvals soloSingle)))"
    by (simp_all add: soloTwo_def soloSingle_def mkExpense_def)
  have e2: "eligibleApproverIds soloUsers soloTwo (snd (getCurrentStep DEFAULT_RULES soloTwo)) = []"
    and e1: "eligibleApproverIds soloUsers soloSingle (snd (getCurrentStep DEFAULT_RULES soloSingle))
             = []"
    by (rule eligibleApproverIds_current)+
  show ?thesis
    using rulesEval_autoskip [OF p2 a2 n2 e2, of "''t2''"]
      rulesEval_autoskip [OF p1 a1 n1 e1, of "''t2''"]
    by (simp add: soloTwo_def soloSingle_def mkExpense_def lastBy_def)
qed

text \<open>
  Claim C4 as stated fails twice for the employee without a manager: a REJECT recorded
  at the manager step rejects the expense instead of passing the step, and on a chain
  of one step the expense becomes APPROVED while the cursor stays at 0.
\<close>

theorem autoskip_counterexample:
  "status soloRejected = ''PENDING''
   \<and> eligibleApproverIds soloUsers soloRejected (Some (JStr ROLE_MANAGER)) = []
   \<and> eligibleApproverIds soloUsers soloRejected (snd (getCurrentStep DEFAULT_RULES soloRejected)) = []
   \<and> status (rulesEval DEFAULT_RULES soloUsers ''t2'' soloRejected) = ''REJECTED''
   \<and> stepIndex (approvals (rulesEval DEFAULT_RULES soloUsers ''t2'' soloRejected)) = 0
   \<and> status soloSingle = ''PENDING''
   \<and> eligibleApproverIds soloUsers soloSingle (Some (JStr ROLE_MANAGER)) = []
   \<and> eligibleApproverIds soloUsers soloSingle (snd (getCurrentStep DEFAULT_RULES soloSingle)) = []
   \<and> length (steps (approvals soloSingle)) = 1
   \<and> status (rulesEval DEFAULT_RULES soloUsers ''t2'' soloSingle) = ''APPROVED''
   \<and> stepIndex (approvals (rulesEval DEFAULT_RULES soloUsers ''t2'' soloSingle)) = 0"
  by (simp add: soloRejected_def soloSingle_def mkExpense_def mkDecision_def soloUsers_def
      seedUsers_def eligibleApproverIds_def hasRole_def rulesEval_def getCurrentStep_def Let_def
      advanceStep_def recordHistory_def role_names)

subsection \<open>The expense's own steps\<close>

text \<open>
  Claim C5. The steps of a new expense are the rule set's steps at that moment, one
  record per role in order; saving the rules form and removing a role leave every
  stored expense as it is; and in the current engine the current step, the active step
  record and the whole evaluation are the same under any two rule sets, while
  evaluation and the recording of a decision keep the role sequence of the expense.
\<close>

theorem snapshot_steps:
  "map s_role (steps (approvals (newExpense eid uid now r))) = r_steps r
   \<and> hd (expenses (handleExpenseSubmit eid uid now st)) = newExpense eid uid now (rulesOf st)
   \<and> expenses (rulesFormSubmit pctOn thr cfoOn sel hybOn editorSteps st) = expenses st
   \<and> expenses (removeRole role st) = expenses st
   \<and> getCurrentStep r e = getCurrentStep r' e
   \<and> approverEntry r e = approverEntry r' e
   \<and> rulesEval r us now e = rulesEval r' us now e
   \<and> map s_role (steps (approvals (rulesEval r us now e))) = map s_role (steps (approvals e))
   \<and> map s_role (steps (approvals (pushDecision e d))) = map s_role (steps (approvals e))"
proof -
  have "map s_role (steps (approvals (newExpense eid uid now r))) = r_steps r"
    by (simp add: newExpense_def comp_def)
  moreover have "hd (expenses (handleExpenseSubmit eid uid now st))
                 = newExpense eid uid now (rulesOf st)"
    by (simp add: handleExpenseSubmit_def addExpense_def)
  moreover have "expenses (rulesFormSubmit pctOn thr cfoOn sel hybOn editorSteps st) = expenses st"
    by (simp add: rulesFormSubmit_def Let_def)
  moreover have "expenses (removeRole role st) = expenses st"
    by (simp add: removeRole_def Let_def)
  moreover have "getCurrentStep r e = getCurrentStep r' e"
    by (simp add: getCurrentStep_def)
  moreover have "approverEntry r e = approverEntry r' e"
    by (simp add: approverEntry_def getCurrentStep_def)
  moreover have "rulesEval r us now e = rulesEval r' us now e"
    by (simp add: rulesEval_def getCurrentStep_def)
  moreover have "map s_role (steps (approvals (rulesEval r us now e)))
                 = map s_role (steps (approvals e))"
    by (simp add: rulesEval_steps)
  moreover have "map s_role (steps (approvals (pushDecision e d))) = map s_role (steps (approvals e))"
    by (cases "stepIndex (approvals e) < length (steps (approvals e))")
       (simp_all add: pushDecision_def Let_def map_update list_update_same_conv list_update_beyond)
  ultimately show ?thesis by blast
qed

subsection \<open>Terminal expenses and overrides\<close>

text \<open>
  Claim C6. For a stored expense whose status is APPROVED or REJECTED, \<open>approveOrReject\<close>
  returns the error NotPending together with the unchanged store, in both engines,
  while \<open>adminOverride\<close> succeeds and leaves the expense with whatever target status it
  was given.
\<close>

theorem terminal_expense:
  assumes "find (\<lambda>x. e_id x = eid) (expenses st) = Some e"
    and "status e = ''APPROVED'' \<or> status e = ''REJECTED''"
  shows "approveOrReject eid uid dec comment now st = (Inl NotPending, st)
       \<and> approveOrReject_p0 eid uid dec comment now st = (Inl NotPending, st)
       \<and> fst (adminOverride eid tgt adminId now st) = Inr ()
       \<and> map_option status
           (find (\<lambda>x. e_id x = eid) (expenses (snd (adminOverride eid tgt adminId now st))))
         = Some tgt
       \<and> fst (adminOverride_p0 eid tgt adminId now st) = Inr ()
       \<and> map_option status
           (find (\<lambda>x. e_id x = eid) (expenses (snd (adminOverride_p0 eid tgt adminId now st))))
         = Some tgt"
proof -
  have i: "e_id e = eid" using assms(1) by (auto dest: find_Some_holds)
  have np: "status e \<noteq> ''PENDING''" using assms(2) by auto
  have a: "approveOrReject eid uid dec comment now st = (Inl NotPending, st)"
    using assms(1) np by (simp add: approveOrReject_def)
  have b: "approveOrReject_p0 eid uid dec comment now st = (Inl NotPending, st)"
    using assms(1) np by (simp add: approveOrReject_p0_def)
  have c: "fst (adminOverride eid tgt adminId now st) = Inr ()
       \<and> map_option status
           (find (\<lambda>x. e_id x = eid) (expenses (snd (adminOverride eid tgt adminId now st))))
         = Some tgt"
    using assms(1) i by (simp add: adminOverride_def recordHistory_def Let_def find_replaceFirst)
  have d: "fst (adminOverride_p0 eid tgt adminId now st) = Inr ()
       \<and> map_option status
           (find (\<lambda>x. e_id x = eid) (expenses (snd (adminOverride_p0 eid tgt adminId now st))))
         = Some tgt"
    using assms(1) i by (simp add: adminOverride_p0_def recordHistory_def Let_def find_replaceFirst)
  show ?thesis using a b c d by simp
qed

theorem terminal_expense_witness:
  "approveOrReject ''e1'' ''u-dir'' ''APPROVE'' ''again'' ''t9'' (mkStore DEFAULT_RULES [approvedSeed])
     = (Inl NotPending, mkStore DEFAULT_RULES [approvedSeed])
   \<and> map status (expenses (snd (adminOverride ''e1'' ''REJECTED'' ''u-admin'' ''t9''
        (mkStore DEFAULT_RULES [approvedSeed])))) = [''REJECTED'']"
proof -
  have h: "find (\<lambda>x. e_id x = ''e1'') (expenses (mkStore DEFAULT_RULES [approvedSeed]))
           = Some approvedSeed"
    by (simp add: mkStore_def approvedSeed_def mkExpense_def)
  have t: "status approvedSeed = ''APPROVED'' \<or> status approvedSeed = ''REJECTED''"
    by (simp add: approvedSeed_def mkExpense_def)
  have "approveOrReject ''e1'' ''u-dir'' ''APPROVE'' ''again'' ''t9'' (mkStore DEFAULT_RULES [approvedSeed])
     = (Inl NotPending, mkStore DEFAULT_RULES [approvedSeed])"
    using terminal_expense [OF h t] by simp
  moreover have "map status (expenses (snd (adminOverride ''e1'' ''REJECTED'' ''u-admin'' ''t9''
        (mkStore DEFAULT_RULES [approvedSeed])))) = [''REJECTED'']"
    by (simp add: adminOverride_def mkStore_def approvedSeed_def mkExpense_def Let_def recordHistory_def)
  ultimately show ?thesis by simp
qed

text \<open>
  Claim C7. For a stored expense and any target status, \<open>adminOverride\<close> of the current
  engine succeeds whatever the current status is, and the stored expense becomes the
  old one with the status set to the target, the cursor set to the length of the
  expense's own steps and exactly one history entry, by the administrator, appended.
\<close>

theorem adminOverride_sets:
  assumes "find (\<lambda>x. e_id x = eid) (expenses st) = Some e"
  shows "adminOverride eid tgt adminId now st =
           (Inr (), st\<lparr>expenses := replaceFirst (\<lambda>x. e_id x = eid)
              (e\<lparr>status := tgt,
                 approvals := (approvals e)\<lparr>stepIndex := length (steps (approvals e))\<rparr>,
                 history := history e @ [\<lparr>h_at = now, h_status = tgt, h_by = adminId\<rparr>]\<rparr>)
              (expenses st)\<rparr>)
       \<and> find (\<lambda>x. e_id x = eid) (expenses (snd (adminOverride eid tgt adminId now st))) =
           Some (e\<lparr>status := tgt,
                 approvals := (approvals e)\<lparr>stepIndex := length (steps (approvals e))\<rparr>,
                 history := history e @ [\<lparr>h_at = now, h_status = tgt, h_by = adminId\<rparr>]\<rparr>)"
proof -
  have "e_id e = eid" using assms by (auto dest: find_Some_holds)
  then show ?thesis
    using assms
    by (simp add: adminOverride_def recordHistory_def Let_def find_replaceFirst)
qed

theorem adminOverride_sets_witness:
  "fst (adminOverride ''e1'' ''REJECTED'' ''u-admin'' ''t9'' (mkStore DEFAULT_RULES [approvedSeed]))
     = Inr ()
   \<and> map status (expenses (snd (adminOverride ''e1'' ''REJECTED'' ''u-admin'' ''t9''
        (mkStore DEFAULT_RULES [approvedSeed])))) = [''REJECTED'']
   \<and> map (stepIndex \<circ> approvals) (expenses (snd (adminOverride ''e1'' ''REJECTED'' ''u-admin'' ''t9''
        (mkStore DEFAULT_RULES [approvedSeed])))) = [3]
   \<and> map (map h_by \<circ> history) (expenses (snd (adminOverride ''e1'' ''REJECTED'' ''u-admin'' ''t9''
        (mkStore DEFAULT_RULES [approvedSeed])))) = [[''u-emp'', ''u-admin'']]"
proof -
  have h: "find (\<lambda>x. e_id x = ''e1'') (expenses (mkStore DEFAULT_RULES [approvedSeed]))
           = Some approvedSeed"
    by (simp add: mkStore_def approvedSeed_def mkExpense_def)
  show ?thesis
    using adminOverride_sets [OF h, of "''REJECTED''" "''u-admin''" "''t9''"]
    by (simp add: mkStore_def approvedSeed_def mkExpense_def)
qed

subsection \<open>Roles\<close>

text \<open>
  Claim C8, as the code has it. The guard for built-in roles is in the click handler of
  the roles list, the caller of \<open>removeRole\<close>: when no custom role bears a built-in name,
  a click on any chip drawn for a built-in name returns the store unchanged, without
  an error and without reaching \<open>removeRole\<close>.
\<close>

theorem builtin_chip_inert:
  assumes "chip \<in> set (renderRolesList st)"
    and "fst chip \<in> set BASE_ROLES"
    and "set (customRoles st) \<inter> set BASE_ROLES = {}"
  shows "rolesListClick chip confirmed st = st"
proof -
  have "snd chip"
    using assms by (auto simp: renderRolesList_def)
  then show ?thesis by (simp add: rolesListClick_def)
qed

theorem builtin_chip_inert_witness:
  "(ROLE_MANAGER, True) \<in> set (renderRolesList auditorStore)
   \<and> rolesListClick (ROLE_MANAGER, True) True auditorStore = auditorStore"
proof -
  have a: "(ROLE_MANAGER, True) \<in> set (renderRolesList auditorStore)"
    by (simp add: renderRolesList_def BASE_ROLES_def)
  have b: "fst (ROLE_MANAGER, True) \<in> set BASE_ROLES"
    by (simp add: BASE_ROLES_def)
  have c: "set (customRoles auditorStore) \<inter> set BASE_ROLES = {}"
    by (simp add: auditorStore_def BASE_ROLES_def ROLE_EMPLOYEE_def
      ROLE_MANAGER_def ROLE_FINANCE_def ROLE_DIRECTOR_def ROLE_ADMIN_def ROLE_CFO_def)
  show ?thesis using builtin_chip_inert [OF a b c, of True] a by simp
qed

text \<open>
  Claim C8 as stated fails: \<open>removeRole\<close> itself has no check and no error; called with
  the built-in MANAGER it strips the role from the seeded manager and from the steps.
\<close>

theorem removeRole_builtin_counterexample:
  "ROLE_MANAGER \<in> set BASE_ROLES
   \<and> map u_roles (users (mkStore DEFAULT_RULES []))
     = [[ROLE_ADMIN], [ROLE_MANAGER], [ROLE_EMPLOYEE], [ROLE_FINANCE], [ROLE_DIRECTOR],
        [ROLE_FINANCE, ROLE_CFO]]
   \<and> map u_roles (users (removeRole ROLE_MANAGER (mkStore DEFAULT_RULES [])))
     = [[ROLE_ADMIN], [], [ROLE_EMPLOYEE], [ROLE_FINANCE], [ROLE_DIRECTOR],
        [ROLE_FINANCE, ROLE_CFO]]
   \<and> r_steps (rulesOf (mkStore DEFAULT_RULES [])) = [ROLE_MANAGER, ROLE_FINANCE, ROLE_DIRECTOR]
   \<and> r_steps (rulesOf (removeRole ROLE_MANAGER (mkStore DEFAULT_RULES [])))
     = [ROLE_FINANCE, ROLE_DIRECTOR]"
  by (simp add: removeRole_def Let_def mkStore_def seedUsers_def DEFAULT_RULES_def BASE_ROLES_def
      ROLE_EMPLOYEE_def ROLE_MANAGER_def ROLE_FINANCE_def ROLE_DIRECTOR_def ROLE_ADMIN_def
      ROLE_CFO_def)

text \<open>
  Claim C9. Removing a role strips it from the role list of every user, resets the
  specific-approver role to CFO when it was the removed role, and filters it out of the
  rule set's steps, which become MANAGER, FINANCE, DIRECTOR when nothing is left; a
  role that is not built-in is then in no step, and it is no longer a custom role.
\<close>

theorem removeRole_cascade:
  "users (removeRole role st)
     = map (\<lambda>u. u\<lparr>u_roles := filter (\<lambda>x. x \<noteq> role) (u_roles u)\<rparr>) (users st)
   \<and> (\<forall>u \<in> set (users (removeRole role st)). role \<notin> set (u_roles u))
   \<and> specific_role (rulesOf (removeRole role st))
     = (if specific_role (rulesOf st) = role then ROLE_CFO else specific_role (rulesOf st))
   \<and> r_steps (rulesOf (removeRole role st))
     = (if filter (\<lambda>x. x \<noteq> role) (r_steps (rulesOf st)) = []
        then [ROLE_MANAGER, ROLE_FINANCE, ROLE_DIRECTOR]
        else filter (\<lambda>x. x \<noteq> role) (r_steps (rulesOf st)))
   \<and> (role \<notin> set BASE_ROLES \<longrightarrow> role \<notin> set (r_steps (rulesOf (removeRole role st))))
   \<and> role \<notin> set (customRoles (removeRole role st))"
proof -
  have u: "users (removeRole role st)
     = map (\<lambda>u. u\<lparr>u_roles := filter (\<lambda>x. x \<noteq> role) (u_roles u)\<rparr>) (users st)"
    by (simp add: removeRole_def Let_def)
  have s: "r_steps (rulesOf (removeRole role st))
     = (if filter (\<lambda>x. x \<noteq> role) (r_steps (rulesOf st)) = []
        then [ROLE_MANAGER, ROLE_FINANCE, ROLE_DIRECTOR]
        else filter (\<lambda>x. x \<noteq> role) (r_steps (rulesOf st)))"
    by (simp add: removeRole_def Let_def)
  have "role \<notin> set (r_steps (rulesOf (removeRole role st)))" if "role \<notin> set BASE_ROLES"
    using that unfolding s by (auto simp: BASE_ROLES_def)
  moreover have "\<forall>u \<in> set (users (removeRole role st)). role \<notin> set (u_roles u)"
    unfolding u by auto
  moreover have "specific_role (rulesOf (removeRole role st))
     = (if specific_role (rulesOf st) = role then ROLE_CFO else specific_role (rulesOf st))"
    by (simp add: removeRole_def Let_def)
  moreover have "role \<notin> set (customRoles (removeRole role st))"
    by (simp add: removeRole_def Let_def set_uniq)
  ultimately show ?thesis using u s by blast
qed

theorem removeRole_cascade_witness:
  "''AUDITOR'' \<notin> set BASE_ROLES
   \<and> map u_roles (users (removeRole ''AUDITOR'' auditorStore)) = [[ROLE_FINANCE], [ROLE_EMPLOYEE]]
   \<and> specific_role (rulesOf (removeRole ''AUDITOR'' auditorStore)) = ROLE_CFO
   \<and> r_steps (rulesOf (removeRole ''AUDITOR'' auditorStore))
     = [ROLE_MANAGER, ROLE_FINANCE, ROLE_DIRECTOR]
   \<and> ''AUDITOR'' \<notin> set (r_steps (rulesOf (removeRole ''AUDITOR'' auditorStore)))"
  using removeRole_cascade [of "''AUDITOR''" auditorStore]
  by (simp add: auditorStore_def DEFAULT_RULES_def BASE_ROLES_def ROLE_EMPLOYEE_def
      ROLE_MANAGER_def ROLE_FINANCE_def ROLE_DIRECTOR_def ROLE_ADMIN_def ROLE_CFO_def)

subsection \<open>Recording a decision\<close>

text \<open>
  Claim C10. For a pending stored expense with an active step, \<open>approveOrReject\<close> of the
  current engine appends to that step a decision that is APPROVE exactly when the
  argument is the string APPROVE and REJECT for every other string; in the latter case
  the expense is REJECTED, and the returned status is the stored one.
\<close>

theorem approveOrReject_records:
  assumes "find (\<lambda>x. e_id x = eid) (expenses st) = Some e"
    and "status e = ''PENDING''"
    and "stepIndex (approvals e) < length (steps (approvals e))"
  shows "\<exists>e'. find (\<lambda>x. e_id x = eid) (expenses (snd (approveOrReject eid uid dec comment now st)))
               = Some e'
          \<and> fst (approveOrReject eid uid dec comment now st) = Inr (status e')
          \<and> s_approvals (steps (approvals e') ! stepIndex (approvals e))
              = s_approvals (steps (approvals e) ! stepIndex (approvals e))
                @ [\<lparr>d_userId = uid,
                    d_decision = (if dec = ''APPROVE'' then APPROVE else REJECT),
                    d_comment = comment, d_at = now\<rparr>]
          \<and> (dec \<noteq> ''APPROVE'' \<longrightarrow> status e' = ''REJECTED'')"
proof -
  let ?d = "\<lparr>d_userId = uid, d_decision = normDecision dec, d_comment = comment, d_at = now\<rparr>"
  let ?e1 = "pushDecision e ?d"
  let ?e2 = "rulesEval (rulesOf st) (users st) now ?e1"
  have i: "e_id e = eid" using assms(1) by (auto dest: find_Some_holds)
  have entry: "approverEntry (rulesOf st) e = Some (steps (approvals e) ! stepIndex (approvals e))"
    using assms(3) by (simp add: approverEntry_def getCurrentStep_def Let_def)
  have res: "approveOrReject eid uid dec comment now st
             = (Inr (status ?e2),
                st\<lparr>expenses := replaceFirst (\<lambda>x. e_id x = eid) ?e2 (expenses st)\<rparr>)"
    using assms(1,2) entry by (simp add: approveOrReject_def Let_def)
  have id2: "e_id ?e2 = eid" using i by (simp add: rulesEval_id pushDecision_frame)
  have f: "find (\<lambda>x. e_id x = eid) (expenses (snd (approveOrReject eid uid dec comment now st)))
           = Some ?e2"
    using res find_replaceFirst [OF assms(1), of ?e2] id2 by simp
  have cur: "s_approvals (steps (approvals ?e2) ! stepIndex (approvals e))
             = s_approvals (steps (approvals e) ! stepIndex (approvals e)) @ [?d]"
    using assms(3) by (simp add: rulesEval_steps pushDecision_current)
  have rej: "status ?e2 = ''REJECTED''" if "dec \<noteq> ''APPROVE''"
  proof -
    have a: "stepIndex (approvals ?e1) < length (steps (approvals ?e1))"
      using assms(3) by (simp add: pushDecision_frame)
    have b: "list_ex (\<lambda>a. d_decision a = REJECT)
               (s_approvals (steps (approvals ?e1) ! stepIndex (approvals ?e1)))"
      using assms(3) that by (simp add: pushDecision_frame pushDecision_current normDecision_def)
    show ?thesis
      by (simp add: rulesEval_on_reject [OF a b] recordHistory_def)
  qed
  show ?thesis
    using f res cur rej by (simp add: normDecision_def)
qed

theorem approveOrReject_records_witness:
  "fst (approveOrReject ''e1'' ''u-manager'' ''approve'' ''ok'' ''t2'' (mkStore DEFAULT_RULES [pendingSeed]))
     = Inr ''REJECTED''
   \<and> fst (approveOrReject ''e1'' ''u-manager'' ''APPROVE'' ''ok'' ''t2'' (mkStore DEFAULT_RULES [pendingSeed]))
     = Inr ''PENDING''"
proof -
  have h: "find (\<lambda>x. e_id x = ''e1'') (expenses (mkStore DEFAULT_RULES [pendingSeed]))
           = Some pendingSeed"
    by (simp add: mkStore_def pendingSeed_def mkExpense_def)
  have p: "status pendingSeed = ''PENDING''"
    by (simp add: pendingSeed_def mkExpense_def)
  have a: "stepIndex (approvals pendingSeed) < length (steps (approvals pendingSeed))"
    by (simp add: pendingSeed_def mkExpense_def)
  have "fst (approveOrReject ''e1'' ''u-manager'' ''approve'' ''ok'' ''t2''
               (mkStore DEFAULT_RULES [pendingSeed])) = Inr ''REJECTED''"
    using approveOrReject_records [OF h p a, of "''u-manager''" "''approve''" "''ok''" "''t2''"]
    by auto
  moreover have "fst (approveOrReject ''e1'' ''u-manager'' ''APPROVE'' ''ok'' ''t2''
               (mkStore DEFAULT_RULES [pendingSeed])) = Inr ''PENDING''"
    by (simp add: approveOrReject_def approverEntry_def getCurrentStep_def Let_def mkStore_def
        pendingSeed_def mkExpense_def pushDecision_def rulesEval_def normDecision_def
        eligibleApproverIds_step_record advanceStep_def)
  ultimately show ?thesis by simp
qed

end
